theory Spec2Isabelle
  imports Complex_Main "HOL-Library.Char_ord" "HOL-Library.List_Lexorder"
begin

section \<open>Conversion of the Tumblr photo tree to sharded TFRecords\<close>

text \<open>
  A shallow embedding of \<^verbatim>\<open>datasets/convert_images_tfrecords.py\<close>. The script talks to
  the operating system and to TensorFlow; those calls are the fields of the record
  \<open>api\<close> below, one field per library function the source calls, over an arbitrary
  filesystem state \<open>'fs\<close> and an arbitrary generator state \<open>'rng\<close>. What the script
  itself computes (paths, shard bounds, the split, the dictionaries, the order of the
  calls, where an exception leaves a loop) is translated line by line.
\<close>

subsection \<open>Module constants\<close>

definition NUM_SHARDS :: nat where
  "NUM_SHARDS = 5"

definition RANDOM_SEED :: int where
  "RANDOM_SEED = 0"

subsection \<open>Paths and string formatting (Python's \<^verbatim>\<open>posixpath\<close> and \<^verbatim>\<open>%\<close>)\<close>

type_synonym path = string

text \<open>
  One step of \<^verbatim>\<open>posixpath.join\<close>: a component that starts with the separator replaces
  what came before; otherwise it is appended, with a separator unless the path so far is
  empty or already ends with one.
\<close>

definition join_step :: "path \<Rightarrow> path \<Rightarrow> path" where
  "join_step p b =
     (if b \<noteq> [] \<and> hd b = CHR ''/'' then b
      else if p = [] \<or> last p = CHR ''/'' then p @ b
      else p @ ''/'' @ b)"

definition os_path_join :: "path \<Rightarrow> path list \<Rightarrow> path" where
  "os_path_join a ps = foldl join_step a ps"

text \<open>\<^verbatim>\<open>posixpath.basename\<close>: what follows the last separator.\<close>

definition os_path_basename :: "path \<Rightarrow> path" where
  "os_path_basename p = rev (takeWhile (\<lambda>c. c \<noteq> CHR ''/'') (rev p))"

text \<open>
  \<^verbatim>\<open>posixpath.dirname\<close>: everything up to and including the last separator, with the
  trailing separators stripped unless the head consists of separators only.
\<close>

definition os_path_dirname :: "path \<Rightarrow> path" where
  "os_path_dirname p =
     (let head = rev (dropWhile (\<lambda>c. c \<noteq> CHR ''/'') (rev p))
      in if head \<noteq> [] \<and> \<not> list_all (\<lambda>c. c = CHR ''/'') head
         then rev (dropWhile (\<lambda>c. c = CHR ''/'') (rev head))
         else head)"

text \<open>\<^verbatim>\<open>'%d' % n\<close> for a non-negative integer: its decimal digits.\<close>

fun fmt_d :: "nat \<Rightarrow> string" where
  "fmt_d n = (if n < 10 then [''0123456789'' ! n]
              else fmt_d (n div 10) @ [''0123456789'' ! (n mod 10)])"

declare fmt_d.simps [simp del]

text \<open>\<^verbatim>\<open>'%05d' % n\<close> for a non-negative integer: the digits, zero-padded to width 5.\<close>

definition fmt_05d :: "nat \<Rightarrow> string" where
  "fmt_05d n = replicate (5 - length (fmt_d n)) CHR ''0'' @ fmt_d n"

text \<open>Python's slices \<^verbatim>\<open>xs[:k]\<close> and \<^verbatim>\<open>xs[k:]\<close> for an integer \<open>k\<close> of either sign.\<close>

definition slice_index :: "'a list \<Rightarrow> int \<Rightarrow> nat" where
  "slice_index xs k =
     (if k < 0 then nat (max 0 (int (length xs) + k)) else min (nat k) (length xs))"

definition slice_to :: "'a list \<Rightarrow> int \<Rightarrow> 'a list" where
  "slice_to xs k = take (slice_index xs k) xs"

definition slice_from :: "'a list \<Rightarrow> int \<Rightarrow> 'a list" where
  "slice_from xs k = drop (slice_index xs k) xs"

text \<open>
  \<^verbatim>\<open>dict(pairs)\<close>: the pairs are stored from left to right, so a later pair with the same
  key replaces an earlier one.
\<close>

definition dict :: "('k \<times> 'v) list \<Rightarrow> ('k \<rightharpoonup> 'v)" where
  "dict kvs = foldl (\<lambda>m kv. m(fst kv \<mapsto> snd kv)) Map.empty kvs"

subsection \<open>Errors, records and the library interface\<close>

datatype error =
    AssertionError
  | KeyError
  | IndexError
  | OSError
  | NotFoundError
  | InvalidArgumentError

text \<open>
  Modelled from the spec: \<^verbatim>\<open>dataset_utils.image_to_tfexample\<close> is not part of the source
  file. The spec's image record is \<open>{raw encoded bytes, format tag, height, width,
  class id}\<close>; the function builds that record from its five arguments.
\<close>

record example =
  image_encoded :: string
  image_format :: string
  image_height :: nat
  image_width :: nat
  class_label :: nat

definition image_to_tfexample :: "string \<Rightarrow> string \<Rightarrow> nat \<Rightarrow> nat \<Rightarrow> nat \<Rightarrow> example" where
  "image_to_tfexample image_data fmt h w class_id =
     \<lparr>image_encoded = image_data, image_format = fmt, image_height = h,
      image_width = w, class_label = class_id\<rparr>"

text \<open>
  The calls the script makes on the outside world, in the order of the source. An array
  returned by the decoder is represented by its shape. Reading may raise; the calls that
  write (creating a directory, opening, writing and closing a record file, writing the
  label file) are taken to succeed. \<open>write_label_file\<close> stands for
  \<^verbatim>\<open>dataset_utils.write_label_file\<close>, which is not part of the source file: it is a
  parameter like the library calls, and receives the three arguments the script passes.
\<close>

record ('fs, 'rng) api =
  gfile_exists :: "'fs \<Rightarrow> path \<Rightarrow> bool"
  gfile_makedirs :: "path \<Rightarrow> 'fs \<Rightarrow> 'fs"
  os_listdir :: "'fs \<Rightarrow> path \<Rightarrow> error + string list"
  os_isdir :: "'fs \<Rightarrow> path \<Rightarrow> bool"
  gfile_read :: "'fs \<Rightarrow> path \<Rightarrow> error + string"
  run_decode_jpeg :: "string \<Rightarrow> error + nat list"
  writer_open :: "path \<Rightarrow> 'fs \<Rightarrow> 'fs"
  writer_write :: "path \<Rightarrow> example \<Rightarrow> 'fs \<Rightarrow> 'fs"
  writer_close :: "path \<Rightarrow> 'fs \<Rightarrow> 'fs"
  write_label_file :: "(nat \<rightharpoonup> string) \<Rightarrow> path \<Rightarrow> path \<Rightarrow> 'fs \<Rightarrow> 'fs"
  random_seed :: "int \<Rightarrow> 'rng"
  random_shuffle :: "'rng \<Rightarrow> string list \<Rightarrow> string list \<times> 'rng"

text \<open>
  Every call that touches the outside world is also recorded, in order, in a trace, so
  that what a run wrote can be stated whatever the filesystem is.
\<close>

datatype event =
    MakeDirs path
  | Stdout string
  | ReadFile path string
  | OpenWriter path
  | WriteRecord path example
  | CloseWriter path
  | WriteLabelFile "nat \<rightharpoonup> string" path path

record ('fs, 'rng) world =
  fsys :: 'fs
  rng :: 'rng
  trace :: "event list"

subsection \<open>Programs over the world\<close>

text \<open>
  A statement of the script is a function from the world to a result, an exception or a
  value, and the world it leaves. \<open>and_then\<close> is sequencing: an exception of the first
  statement skips the second.
\<close>

type_synonym ('a, 'fs, 'rng) prog = "('fs, 'rng) world \<Rightarrow> (error + 'a) \<times> ('fs, 'rng) world"

definition ret :: "'a \<Rightarrow> ('a, 'fs, 'rng) prog" where
  "ret x w = (Inr x, w)"

definition raise :: "error \<Rightarrow> ('a, 'fs, 'rng) prog" where
  "raise e w = (Inl e, w)"

fun continue_with ::
  "(error + 'a) \<times> ('fs, 'rng) world \<Rightarrow> ('a \<Rightarrow> ('b, 'fs, 'rng) prog) \<Rightarrow>
   (error + 'b) \<times> ('fs, 'rng) world" where
  "continue_with (Inl e, w') k = (Inl e, w')"
| "continue_with (Inr x, w') k = k x w'"

definition and_then ::
  "('a, 'fs, 'rng) prog \<Rightarrow> ('a \<Rightarrow> ('b, 'fs, 'rng) prog) \<Rightarrow> ('b, 'fs, 'rng) prog" where
  "and_then m k w = continue_with (m w) k"

text \<open>A call that changes the filesystem, recorded in the trace.\<close>

definition effect :: "event \<Rightarrow> ('fs \<Rightarrow> 'fs) \<Rightarrow> ('fs, 'rng) world \<Rightarrow> ('fs, 'rng) world" where
  "effect ev f w = w\<lparr>fsys := f (fsys w), trace := trace w @ [ev]\<rparr>"

definition perform :: "event \<Rightarrow> ('fs \<Rightarrow> 'fs) \<Rightarrow> (unit, 'fs, 'rng) prog" where
  "perform ev f w = (Inr (), effect ev f w)"

text \<open>A call that only reads the filesystem, and one whose result may be an exception.\<close>

definition query :: "('fs \<Rightarrow> 'a) \<Rightarrow> ('a, 'fs, 'rng) prog" where
  "query g w = (Inr (g (fsys w)), w)"

definition attempt :: "('fs \<Rightarrow> error + 'a) \<Rightarrow> ('a, 'fs, 'rng) prog" where
  "attempt g w = (g (fsys w), w)"

text \<open>
  The \<^verbatim>\<open>with\<close> statement of a writer: the block runs, and the writer is closed whether the
  block returned or raised.
\<close>

definition closing :: "event \<Rightarrow> ('fs \<Rightarrow> 'fs) \<Rightarrow> ('a, 'fs, 'rng) prog \<Rightarrow> ('a, 'fs, 'rng) prog" where
  "closing ev f m w = apsnd (effect ev f) (m w)"

text \<open>\<^verbatim>\<open>sys.stdout.write(s)\<close>; \<^verbatim>\<open>print(s)\<close> is \<^verbatim>\<open>sys.stdout.write(s + '\n')\<close>.\<close>

definition stdout_write :: "string \<Rightarrow> (unit, 'fs, 'rng) prog" where
  "stdout_write s w = perform (Stdout s) id w"

definition print :: "string \<Rightarrow> (unit, 'fs, 'rng) prog" where
  "print s w = stdout_write (s @ [CHR 0x0A]) w"

text \<open>
  A \<^verbatim>\<open>for\<close> loop whose body may raise: the first exception leaves the loop, with the
  world as the failing iteration left it.
\<close>

primrec for_each :: "'a list \<Rightarrow> ('a \<Rightarrow> (unit, 'fs, 'rng) prog) \<Rightarrow> (unit, 'fs, 'rng) prog" where
  "for_each [] body = ret ()"
| "for_each (x # xs) body = and_then (body x) (\<lambda>_. for_each xs body)"

subsection \<open>\<^verbatim>\<open>ImageReader\<close>\<close>

text \<open>
  \<^verbatim>\<open>decode_jpeg\<close> runs the decoder and asserts that the array has three dimensions and
  that the third is 3. A failed \<^verbatim>\<open>assert\<close> raises \<^verbatim>\<open>AssertionError\<close>.
\<close>

definition decode_jpeg :: "('fs, 'rng) api \<Rightarrow> string \<Rightarrow> error + nat list" where
  "decode_jpeg a image_data =
     (case run_decode_jpeg a image_data of
        Inl e \<Rightarrow> Inl e
      | Inr img \<Rightarrow>
          if length img \<noteq> 3 then Inl AssertionError
          else if img ! 2 \<noteq> 3 then Inl AssertionError
          else Inr img)"

definition read_image_dims :: "('fs, 'rng) api \<Rightarrow> string \<Rightarrow> error + nat \<times> nat" where
  "read_image_dims a image_data =
     (case decode_jpeg a image_data of
        Inl e \<Rightarrow> Inl e
      | Inr img \<Rightarrow> Inr (img ! 0, img ! 1))"

subsection \<open>\<^verbatim>\<open>_get_filenames_and_classes\<close>\<close>

text \<open>
  The first loop: the entries of the photos directory that are directories, as paths and
  as names, in the order of the listing. \<^verbatim>\<open>os.listdir\<close> raises when the directory is
  missing.
\<close>

definition list_classes ::
  "('fs, 'rng) api \<Rightarrow> path \<Rightarrow> path \<Rightarrow> 'fs \<Rightarrow> error + path list \<times> string list" where
  "list_classes a dataset_dir photos_subdir fs =
     (let root = os_path_join dataset_dir [photos_subdir] in
      case os_listdir a fs root of
        Inl e \<Rightarrow> Inl e
      | Inr entries \<Rightarrow>
          (let class_names =
                 filter (\<lambda>filename. os_isdir a fs (os_path_join root [filename])) entries;
               directories = map (\<lambda>filename. os_path_join root [filename]) class_names
           in Inr (directories, class_names)))"

text \<open>The second loop: the entries of each class directory, but for \<^verbatim>\<open>.DS_Store\<close>.\<close>

fun list_photos :: "('fs, 'rng) api \<Rightarrow> 'fs \<Rightarrow> path list \<Rightarrow> error + path list" where
  "list_photos a fs [] = Inr []"
| "list_photos a fs (directory # directories) =
     (case os_listdir a fs directory of
        Inl e \<Rightarrow> Inl e
      | Inr entries \<Rightarrow>
          (case list_photos a fs directories of
             Inl e \<Rightarrow> Inl e
           | Inr rest \<Rightarrow>
               Inr (map (\<lambda>filename. os_path_join directory [filename])
                      (filter (\<lambda>filename. filename \<noteq> ''.DS_Store'') entries) @ rest)))"

definition get_filenames_and_classes ::
  "('fs, 'rng) api \<Rightarrow> path \<Rightarrow> path \<Rightarrow> 'fs \<Rightarrow> error + path list \<times> string list" where
  "get_filenames_and_classes a dataset_dir photos_subdir fs =
     (case list_classes a dataset_dir photos_subdir fs of
        Inl e \<Rightarrow> Inl e
      | Inr found \<Rightarrow>
          (let directories = fst found; class_names = snd found
           in case list_photos a fs directories of
                Inl e \<Rightarrow> Inl e
              | Inr photo_filenames \<Rightarrow> Inr (photo_filenames, sort class_names)))"

subsection \<open>\<^verbatim>\<open>_get_dataset_filename\<close> and \<^verbatim>\<open>_dataset_exists\<close>\<close>

definition get_dataset_filename :: "path \<Rightarrow> path \<Rightarrow> string \<Rightarrow> nat \<Rightarrow> path" where
  "get_dataset_filename dataset_dir photos_subdir split_name shard_id =
     (let output_filename =
            ''tumblr_'' @ split_name @ ''_'' @ fmt_05d shard_id @ ''-of-'' @
            fmt_05d NUM_SHARDS @ ''.tfrecord''
      in os_path_join dataset_dir [photos_subdir, output_filename])"

definition dataset_exists :: "('fs, 'rng) api \<Rightarrow> path \<Rightarrow> path \<Rightarrow> 'fs \<Rightarrow> bool" where
  "dataset_exists a dataset_dir photos_subdir fs =
     list_all (\<lambda>split_name.
        list_all (\<lambda>shard_id.
           gfile_exists a fs (get_dataset_filename dataset_dir photos_subdir split_name shard_id))
          [0..<NUM_SHARDS])
       [''train'', ''validation'']"

subsection \<open>\<^verbatim>\<open>_convert_dataset\<close>\<close>

text \<open>
  \<^verbatim>\<open>int(math.ceil(len(filenames) / float(_NUM_SHARDS)))\<close>. The quotient is taken over the
  reals: a double represents every list length below \<open>2^53\<close> exactly, and the rounded
  quotient of such a length by 5 has the ceiling of the exact one.
\<close>

definition num_per_shard_of :: "nat \<Rightarrow> nat" where
  "num_per_shard_of n = nat \<lceil>real n / real NUM_SHARDS\<rceil>"

text \<open>
  The indices of a shard, \<^verbatim>\<open>range(start_ndx, end_ndx)\<close>: empty when \<open>end_ndx \<le> start_ndx\<close>.
\<close>

definition shard_indices :: "nat \<Rightarrow> nat \<Rightarrow> nat \<Rightarrow> nat list" where
  "shard_indices num_per_shard n shard_id =
     (let start_ndx = shard_id * num_per_shard;
          end_ndx = min ((shard_id + 1) * num_per_shard) n
      in [start_ndx..<end_ndx])"

text \<open>
  The body of the inner loop, for the image at index \<open>i\<close>: the progress line, the read, the
  decoding for the dimensions, the class id of the parent directory's name, the record.
\<close>

definition convert_image ::
  "('fs, 'rng) api \<Rightarrow> path list \<Rightarrow> (string \<rightharpoonup> nat) \<Rightarrow> path \<Rightarrow> nat \<Rightarrow> nat \<Rightarrow>
   (unit, 'fs, 'rng) prog" where
  "convert_image a filenames class_names_to_ids output_filename shard_id i w =
     and_then
       (stdout_write
          ([CHR 0x0D] @ ''>> Converting image '' @ fmt_d (i + 1) @ ''/'' @
           fmt_d (length filenames) @ '' shard '' @ fmt_d shard_id))
       (\<lambda>_. if length filenames \<le> i then raise IndexError
            else
              and_then (attempt (\<lambda>fs. gfile_read a fs (filenames ! i)))
                (\<lambda>image_data.
                   and_then (perform (ReadFile (filenames ! i) image_data) id)
                     (\<lambda>_. and_then (attempt (\<lambda>fs. read_image_dims a image_data))
                       (\<lambda>dims.
                          let height = fst dims; width = snd dims;
                              class_name = os_path_basename (os_path_dirname (filenames ! i))
                          in case class_names_to_ids class_name of
                               None \<Rightarrow> raise KeyError
                             | Some class_id \<Rightarrow>
                                 (let ex = image_to_tfexample image_data ''jpg'' height width
                                             class_id
                                  in perform (WriteRecord output_filename ex)
                                       (writer_write a output_filename ex)))))) w"

text \<open>The body of the outer loop: one shard file, opened, filled and closed.\<close>

definition convert_shard ::
  "('fs, 'rng) api \<Rightarrow> string \<Rightarrow> path list \<Rightarrow> (string \<rightharpoonup> nat) \<Rightarrow> path \<Rightarrow> path \<Rightarrow> nat \<Rightarrow> nat \<Rightarrow>
   (unit, 'fs, 'rng) prog" where
  "convert_shard a split_name filenames class_names_to_ids dataset_dir tfrecords_subdir
     num_per_shard shard_id w =
     (let output_filename =
            get_dataset_filename dataset_dir tfrecords_subdir split_name shard_id
      in and_then (perform (OpenWriter output_filename) (writer_open a output_filename))
           (\<lambda>_. closing (CloseWriter output_filename) (writer_close a output_filename)
                  (for_each (shard_indices num_per_shard (length filenames) shard_id)
                     (convert_image a filenames class_names_to_ids output_filename shard_id))))
       w"

definition convert_dataset ::
  "('fs, 'rng) api \<Rightarrow> string \<Rightarrow> path list \<Rightarrow> (string \<rightharpoonup> nat) \<Rightarrow> path \<Rightarrow> path \<Rightarrow>
   (unit, 'fs, 'rng) prog" where
  "convert_dataset a split_name filenames class_names_to_ids dataset_dir tfrecords_subdir w =
     (if split_name \<notin> set [''train'', ''validation''] then raise AssertionError
      else
        (let num_per_shard = num_per_shard_of (length filenames)
         in and_then
              (for_each [0..<NUM_SHARDS]
                 (convert_shard a split_name filenames class_names_to_ids dataset_dir
                    tfrecords_subdir num_per_shard))
              (\<lambda>_. stdout_write [CHR 0x0A]))) w"

subsection \<open>\<^verbatim>\<open>convert_images\<close>\<close>

text \<open>The first statement: the output directory is created when it does not exist.\<close>

definition make_tfrecords_dir :: "('fs, 'rng) api \<Rightarrow> path \<Rightarrow> path \<Rightarrow> (unit, 'fs, 'rng) prog" where
  "make_tfrecords_dir a dataset_dir tfrecords_subdir w =
     (let out_dir = os_path_join dataset_dir [tfrecords_subdir]
      in and_then (query (\<lambda>fs. gfile_exists a fs out_dir))
           (\<lambda>there. if \<not> there then perform (MakeDirs out_dir) (gfile_makedirs a out_dir)
                     else ret ())) w"

text \<open>
  The split (the four lines under "Divide into train and test"): the generator is
  seeded, the list is shuffled, and the two slices are taken.
\<close>

definition split_step ::
  "('fs, 'rng) api \<Rightarrow> int \<Rightarrow> path list \<Rightarrow> (path list \<times> path list, 'fs, 'rng) prog" where
  "split_step a num_valid photo_filenames w =
     (let w1 = w\<lparr>rng := random_seed a RANDOM_SEED\<rparr>;
          sg = random_shuffle a (rng w1) photo_filenames;
          shuffled = fst sg;
          w2 = w1\<lparr>rng := snd sg\<rparr>;
          training_filenames = slice_from shuffled num_valid;
          validation_filenames = slice_to shuffled num_valid
      in (Inr (training_filenames, validation_filenames), w2))"

definition convert_images ::
  "('fs, 'rng) api \<Rightarrow> path \<Rightarrow> int \<Rightarrow> path \<Rightarrow> path \<Rightarrow> (unit, 'fs, 'rng) prog" where
  "convert_images a dataset_dir num_valid photos_subdir tfrecords_subdir w =
     and_then (make_tfrecords_dir a dataset_dir tfrecords_subdir)
       (\<lambda>_. and_then (query (dataset_exists a dataset_dir photos_subdir))
         (\<lambda>complete.
            if complete
            then print ''Dataset files already exist. Exiting without re-creating them.''
            else
              and_then (attempt (get_filenames_and_classes a dataset_dir photos_subdir))
                (\<lambda>scanned.
                   let photo_filenames = fst scanned; class_names = snd scanned;
                       class_names_to_ids = dict (zip class_names [0..<length class_names])
                   in and_then (split_step a num_valid photo_filenames)
                        (\<lambda>parts.
                           let training_filenames = fst parts; validation_filenames = snd parts
                           in and_then
                                (convert_dataset a ''train'' training_filenames
                                   class_names_to_ids dataset_dir tfrecords_subdir)
                                (\<lambda>_. and_then
                                   (convert_dataset a ''validation'' validation_filenames
                                      class_names_to_ids dataset_dir tfrecords_subdir)
                                   (\<lambda>_. let labels_to_class_names =
                                             dict (zip [0..<length class_names] class_names)
                                        in and_then
                                             (perform
                                                (WriteLabelFile labels_to_class_names
                                                   dataset_dir photos_subdir)
                                                (write_label_file a labels_to_class_names
                                                   dataset_dir photos_subdir))
                                             (\<lambda>_. print
                                                ([CHR 0x0A] @
                                                 ''Finished converting the dataset!''))))))))
       w"

subsection \<open>Reading a trace\<close>

text \<open>The events a run added to the trace of the world it started from.\<close>

definition new_events :: "('fs, 'rng) world \<Rightarrow> ('fs, 'rng) world \<Rightarrow> event list" where
  "new_events w w' = drop (length (trace w)) (trace w')"

text \<open>The records written, each with the file it went to; the files read; the files opened.\<close>

fun written :: "event list \<Rightarrow> (path \<times> example) list" where
  "written [] = []"
| "written (WriteRecord p ex # evs) = (p, ex) # written evs"
| "written (_ # evs) = written evs"

fun files_read :: "event list \<Rightarrow> (path \<times> string) list" where
  "files_read [] = []"
| "files_read (ReadFile p d # evs) = (p, d) # files_read evs"
| "files_read (_ # evs) = files_read evs"

fun opened :: "event list \<Rightarrow> path list" where
  "opened [] = []"
| "opened (OpenWriter p # evs) = p # opened evs"
| "opened (_ # evs) = opened evs"

text \<open>The entries of a directory that can be listed (none for one that cannot).\<close>

definition directory_entries :: "('fs, 'rng) api \<Rightarrow> 'fs \<Rightarrow> path \<Rightarrow> string list" where
  "directory_entries a fs directory =
     (case os_listdir a fs directory of Inl e \<Rightarrow> [] | Inr entries \<Rightarrow> entries)"

text \<open>A decoded array that passes both assertions of \<^verbatim>\<open>decode_jpeg\<close>.\<close>

definition three_channels :: "('fs, 'rng) api \<Rightarrow> string \<Rightarrow> bool" where
  "three_channels a image_data =
     (case run_decode_jpeg a image_data of
        Inl e \<Rightarrow> False
      | Inr img \<Rightarrow> length img = 3 \<and> img ! 2 = 3)"

subsection \<open>A filesystem in memory, to run the script on\<close>

text \<open>
  An instance of the interface for concrete runs: directories with their listings and
  files with their bytes, as association lists whose first entry for a path is the
  current one. Its decoder knows two images, \<open>rgb\<close> (4 by 6, three channels) and \<open>gray\<close>
  (4 by 6, one channel); its shuffle reverses the list.
\<close>

record memfs =
  mem_dirs :: "(path \<times> string list) list"
  mem_files :: "(path \<times> string) list"

definition mem_api :: "(memfs, nat) api" where
  "mem_api =
     \<lparr>gfile_exists = (\<lambda>fs p. \<not> (map_of (mem_dirs fs) p = None \<and> map_of (mem_files fs) p = None)),
      gfile_makedirs = (\<lambda>p fs. fs\<lparr>mem_dirs := (p, []) # mem_dirs fs\<rparr>),
      os_listdir = (\<lambda>fs p. case map_of (mem_dirs fs) p of
                              None \<Rightarrow> Inl OSError | Some entries \<Rightarrow> Inr entries),
      os_isdir = (\<lambda>fs p. map_of (mem_dirs fs) p \<noteq> None),
      gfile_read = (\<lambda>fs p. case map_of (mem_files fs) p of
                              None \<Rightarrow> Inl NotFoundError | Some d \<Rightarrow> Inr d),
      run_decode_jpeg = (\<lambda>d. if d = ''rgb'' then Inr [4, 6, 3]
                              else if d = ''gray'' then Inr [4, 6, 1]
                              else Inl InvalidArgumentError),
      writer_open = (\<lambda>p fs. fs\<lparr>mem_files := (p, []) # mem_files fs\<rparr>),
      writer_write = (\<lambda>p ex fs.
         fs\<lparr>mem_files :=
              (p, (case map_of (mem_files fs) p of None \<Rightarrow> [] | Some d \<Rightarrow> d) @
                  image_encoded ex) # mem_files fs\<rparr>),
      writer_close = (\<lambda>p fs. fs),
      write_label_file = (\<lambda>labels dataset_dir sub fs.
         fs\<lparr>mem_files := (os_path_join dataset_dir [sub, ''labels.txt''], []) # mem_files fs\<rparr>),
      random_seed = (\<lambda>k. nat k),
      random_shuffle = (\<lambda>g xs. (rev xs, Suc g))\<rparr>"

definition mem_world :: "memfs \<Rightarrow> (memfs, nat) world" where
  "mem_world fs = \<lparr>fsys = fs, rng = 7, trace = []\<rparr>"

text \<open>
  A photo tree for concrete runs: two classes, seven images and two files that are not
  images.
\<close>

definition demo_fs :: memfs where
  "demo_fs =
     \<lparr>mem_dirs =
        [(''d/photos'', [''sad'', ''happy'', ''notes.txt'']),
         (''d/photos/sad'', [''e.jpg'', ''f.jpg'', ''g.jpg'']),
         (''d/photos/happy'', [''a.jpg'', ''.DS_Store'', ''b.jpg'', ''c.jpg'', ''d.jpg''])],
      mem_files =
        [(''d/photos/notes.txt'', ''text''),
         (''d/photos/happy/.DS_Store'', ''meta''),
         (''d/photos/happy/a.jpg'', ''rgb''), (''d/photos/happy/b.jpg'', ''rgb''),
         (''d/photos/happy/c.jpg'', ''rgb''), (''d/photos/happy/d.jpg'', ''rgb''),
         (''d/photos/sad/e.jpg'', ''rgb''), (''d/photos/sad/f.jpg'', ''rgb''),
         (''d/photos/sad/g.jpg'', ''rgb'')]\<rparr>"

definition demo_filenames :: "path list" where
  "demo_filenames =
     [''d/photos/sad/e.jpg'', ''d/photos/sad/f.jpg'', ''d/photos/sad/g.jpg'',
      ''d/photos/happy/a.jpg'', ''d/photos/happy/b.jpg'', ''d/photos/happy/c.jpg'',
      ''d/photos/happy/d.jpg'']"

definition demo_ids :: "string \<rightharpoonup> nat" where
  "demo_ids = [''happy'' \<mapsto> 0, ''sad'' \<mapsto> 1]"



text \<open>
  Two trees that already hold the ten shard files: in the tfrecords directory, and beside
  the class directories.
\<close>

definition shard_names :: "string list" where
  "shard_names =
     [''tumblr_train_00000-of-00005.tfrecord'', ''tumblr_train_00001-of-00005.tfrecord'',
      ''tumblr_train_00002-of-00005.tfrecord'', ''tumblr_train_00003-of-00005.tfrecord'',
      ''tumblr_train_00004-of-00005.tfrecord'',
      ''tumblr_validation_00000-of-00005.tfrecord'',
      ''tumblr_validation_00001-of-00005.tfrecord'',
      ''tumblr_validation_00002-of-00005.tfrecord'',
      ''tumblr_validation_00003-of-00005.tfrecord'',
      ''tumblr_validation_00004-of-00005.tfrecord'']"

definition converted_fs :: memfs where
  "converted_fs =
     \<lparr>mem_dirs = [(''d/photos'', [''happy'']),
                  (''d/photos/happy'', [''a.jpg'']),
                  (''d/tfrecords'', shard_names)],
      mem_files = (''d/photos/happy/a.jpg'', ''rgb'') #
                  map (\<lambda>name. (''d/tfrecords/'' @ name, ''records'')) shard_names\<rparr>"

definition shards_beside_photos_fs :: memfs where
  "shards_beside_photos_fs =
     \<lparr>mem_dirs = [(''d/photos'', ''happy'' # shard_names),
                  (''d/photos/happy'', [''a.jpg''])],
      mem_files = (''d/photos/happy/a.jpg'', ''rgb'') #
                  map (\<lambda>name. (''d/photos/'' @ name, ''records'')) shard_names\<rparr>"

section \<open>Sequencing and loops\<close>

lemma and_then_Inr:
  "and_then m k w = (Inr y, w') \<longleftrightarrow> (\<exists>x w1. m w = (Inr x, w1) \<and> k x w1 = (Inr y, w'))"
proof (cases "m w")
  case (Pair r w1)
  then show ?thesis by (cases r) (simp_all add: and_then_def)
qed

lemma and_then_Inl:
  "and_then m k w = (Inl e, w') \<longleftrightarrow>
     m w = (Inl e, w') \<or> (\<exists>x w1. m w = (Inr x, w1) \<and> k x w1 = (Inl e, w'))"
proof (cases "m w")
  case (Pair r w1)
  then show ?thesis by (cases r) (simp_all add: and_then_def)
qed

lemma trace_effect: "trace (effect ev f w) = trace w @ [ev]"
  by (simp add: effect_def)

text \<open>
  A loop that returns has run its body on every element, in order; the events of the run
  are those of the iterations, one block each.
\<close>

lemma for_each_Inr:
  assumes "for_each xs body w = (Inr u, w')"
    and "\<And>x w1 w2. x \<in> set xs \<Longrightarrow> body x w1 = (Inr (), w2) \<Longrightarrow>
           \<exists>evs. trace w2 = trace w1 @ evs \<and> P x evs"
  shows "\<exists>evss. trace w' = trace w @ concat evss \<and> list_all2 P xs evss"
  using assms
proof (induction xs arbitrary: w)
  case Nil
  then show ?case by (simp add: ret_def)
next
  case (Cons x xs)
  from Cons.prems(1) obtain w1 where b: "body x w = (Inr (), w1)"
    and r: "for_each xs body w1 = (Inr u, w')"
    by (auto simp: and_then_Inr)
  from Cons.prems(2)[OF _ b] obtain evs where e: "trace w1 = trace w @ evs" "P x evs"
    by auto
  have "\<exists>evss. trace w' = trace w1 @ concat evss \<and> list_all2 P xs evss"
  proof (rule Cons.IH[OF r])
    fix y w1 w2 assume "y \<in> set xs" "body y w1 = (Inr (), w2)"
    then show "\<exists>evs. trace w2 = trace w1 @ evs \<and> P y evs"
      using Cons.prems(2)[of y w1 w2] by simp
  qed
  then obtain evss
    where es: "trace w' = trace w1 @ concat evss" "list_all2 P xs evss"
    by blast
  have "trace w' = trace w @ concat (evs # evss)" using e es by simp
  moreover have "list_all2 P (x # xs) (evs # evss)" using e es by simp
  ultimately show ?case by blast
qed

text \<open>
  A loop that raises has run its body on a prefix of the list, and the exception is that
  of the next element; no later element is visited.
\<close>

lemma for_each_Inl:
  assumes "for_each xs body w = (Inl e, w')"
    and "\<And>x w1 w2. x \<in> set xs \<Longrightarrow> body x w1 = (Inr (), w2) \<Longrightarrow>
           \<exists>evs. trace w2 = trace w1 @ evs \<and> P x evs"
    and "\<And>x w1 w2. x \<in> set xs \<Longrightarrow> body x w1 = (Inl e, w2) \<Longrightarrow>
           \<exists>evs. trace w2 = trace w1 @ evs \<and> Q x evs"
  shows "\<exists>ys x zs evss evs. xs = ys @ x # zs \<and> list_all2 P ys evss \<and> Q x evs \<and>
           trace w' = trace w @ concat evss @ evs"
  using assms
proof (induction xs arbitrary: w)
  case Nil
  then show ?case by (simp add: ret_def)
next
  case (Cons x xs)
  from Cons.prems(1) consider
      (fail) "body x w = (Inl e, w')"
    | (go) w1 where "body x w = (Inr (), w1)" "for_each xs body w1 = (Inl e, w')"
    by (auto simp: and_then_Inl)
  then show ?case
  proof cases
    case fail
    from Cons.prems(3)[OF _ fail] obtain evs where "trace w' = trace w @ evs" "Q x evs"
      by auto
    then have "x # xs = [] @ x # xs \<and> list_all2 P [] [] \<and> Q x evs \<and>
        trace w' = trace w @ concat [] @ evs" by simp
    then show ?thesis by blast
  next
    case go
    from Cons.prems(2)[OF _ go(1)] obtain evs0 where e: "trace w1 = trace w @ evs0" "P x evs0"
      by auto
    have "\<exists>ys y zs evss evs. xs = ys @ y # zs \<and> list_all2 P ys evss \<and> Q y evs \<and>
        trace w' = trace w1 @ concat evss @ evs"
    proof (rule Cons.IH[OF go(2)])
      fix y w1 w2 assume "y \<in> set xs" "body y w1 = (Inr (), w2)"
      then show "\<exists>evs. trace w2 = trace w1 @ evs \<and> P y evs"
        using Cons.prems(2)[of y w1 w2] by simp
    next
      fix y w1 w2 assume "y \<in> set xs" "body y w1 = (Inl e, w2)"
      then show "\<exists>evs. trace w2 = trace w1 @ evs \<and> Q y evs"
        using Cons.prems(3)[of y w1 w2] by simp
    qed
    then obtain ys y zs evss evs
      where r: "xs = ys @ y # zs" "list_all2 P ys evss" "Q y evs"
        "trace w' = trace w1 @ concat evss @ evs"
      by blast
    have "x # xs = (x # ys) @ y # zs \<and> list_all2 P (x # ys) (evs0 # evss) \<and> Q y evs \<and>
        trace w' = trace w @ concat (evs0 # evss) @ evs"
      using e r by simp
    then show ?thesis by blast
  qed
qed

section \<open>The split\<close>

lemma slice_to_nonneg: "0 \<le> k \<Longrightarrow> slice_to xs k = take (nat k) xs"
  by (simp add: slice_to_def slice_index_def min_def)

lemma slice_from_nonneg: "0 \<le> k \<Longrightarrow> slice_from xs k = drop (nat k) xs"
  by (simp add: slice_from_def slice_index_def min_def)

lemma split_step_eq:
  "split_step a num_valid photo_filenames w =
     (Inr (slice_from (fst (random_shuffle a (random_seed a RANDOM_SEED) photo_filenames)) num_valid,
           slice_to (fst (random_shuffle a (random_seed a RANDOM_SEED) photo_filenames)) num_valid),
      w\<lparr>rng := snd (random_shuffle a (random_seed a RANDOM_SEED) photo_filenames)\<rparr>)"
  by (simp add: split_step_def Let_def)

text \<open>
  Claim C6. The two lists the split returns depend on the filename list, on
  \<open>num_valid\<close> and on the generator's algorithm only: two runs that start in any two
  worlds (any filesystem, any generator state left by earlier draws) return the same
  training and validation filenames, because the split seeds the generator itself.
\<close>

theorem split_is_deterministic:
  "fst (split_step a num_valid photo_filenames w1) =
   fst (split_step a num_valid photo_filenames w2)"
  by (simp add: split_step_eq)

section \<open>What a conversion writes\<close>

lemma written_append: "written (xs @ ys) = written xs @ written ys"
  by (induction xs rule: written.induct) simp_all

lemma files_read_append: "files_read (xs @ ys) = files_read xs @ files_read ys"
  by (induction xs rule: files_read.induct) simp_all

lemma opened_append: "opened (xs @ ys) = opened xs @ opened ys"
  by (induction xs rule: opened.induct) simp_all

lemma read_image_dims_Inr:
  "read_image_dims a d = Inr dims \<Longrightarrow> three_channels a d"
  by (auto simp: read_image_dims_def decode_jpeg_def three_channels_def
      split: sum.splits if_splits)


lemma convert_image_Inr:
  assumes "convert_image a fns c2i out s i w = (Inr u, w')"
  shows "\<exists>st d ex. trace w' = trace w @ [Stdout st, ReadFile (fns ! i) d, WriteRecord out ex] \<and>
           i < length fns \<and> three_channels a d \<and> image_encoded ex = d \<and>
           image_format ex = ''jpg'' \<and>
           c2i (os_path_basename (os_path_dirname (fns ! i))) = Some (class_label ex)"
proof -
  let ?st = "[CHR 0x0D] @ ''>> Converting image '' @ fmt_d (i + 1) @ ''/'' @
           fmt_d (length fns) @ '' shard '' @ fmt_d s"
  let ?w1 = "effect (Stdout ?st) id w"
  from assms have i: "i < length fns"
    by (auto simp: convert_image_def and_then_Inr stdout_write_def perform_def raise_def
        split: if_splits)
  from assms i obtain d where d: "gfile_read a (fsys ?w1) (fns ! i) = Inr d"
    by (auto simp: convert_image_def and_then_Inr stdout_write_def perform_def attempt_def)
  let ?w2 = "effect (ReadFile (fns ! i) d) id ?w1"
  from assms i d obtain dims where dims: "read_image_dims a d = Inr dims"
    by (auto simp: convert_image_def and_then_Inr stdout_write_def perform_def attempt_def)
  from assms i d dims obtain cid
    where cid: "c2i (os_path_basename (os_path_dirname (fns ! i))) = Some cid"
    by (auto simp: convert_image_def and_then_Inr stdout_write_def perform_def attempt_def
        raise_def Let_def split: option.splits)
  let ?ex = "image_to_tfexample d ''jpg'' (fst dims) (snd dims) cid"
  from assms i d dims cid
  have "w' = effect (WriteRecord out ?ex) (writer_write a out ?ex) ?w2"
    by (auto simp: convert_image_def and_then_Inr stdout_write_def perform_def attempt_def
        Let_def)
  then have "trace w' = trace w @ [Stdout ?st, ReadFile (fns ! i) d, WriteRecord out ?ex]"
    by (simp add: trace_effect)
  moreover have "image_encoded ?ex = d" "image_format ?ex = ''jpg''" "class_label ?ex = cid"
    by (simp_all add: image_to_tfexample_def)
  ultimately show ?thesis
    using i cid read_image_dims_Inr[OF dims]
    by - (rule exI[of _ ?st], rule exI[of _ d], rule exI[of _ ?ex], simp)
qed

lemma convert_image_Inl:
  assumes "convert_image a fns c2i out s i w = (Inl e, w')"
  shows "(\<exists>st. trace w' = trace w @ [Stdout st]) \<or>
         (\<exists>st d. trace w' = trace w @ [Stdout st, ReadFile (fns ! i) d] \<and>
            (read_image_dims a d = Inl e \<or> three_channels a d))"
proof -
  let ?st = "[CHR 0x0D] @ ''>> Converting image '' @ fmt_d (i + 1) @ ''/'' @
           fmt_d (length fns) @ '' shard '' @ fmt_d s"
  let ?w1 = "effect (Stdout ?st) id w"
  show ?thesis
  proof (cases "i < length fns")
    case False
    with assms have "w' = ?w1"
      by (auto simp: convert_image_def and_then_Inl stdout_write_def perform_def raise_def)
    then show ?thesis by (simp add: trace_effect)
  next
    case i: True
    show ?thesis
    proof (cases "gfile_read a (fsys ?w1) (fns ! i)")
      case (Inl e')
      with assms i have "w' = ?w1"
        by (auto simp: convert_image_def and_then_Inl stdout_write_def perform_def attempt_def)
      then show ?thesis by (simp add: trace_effect)
    next
      case (Inr d)
      let ?w2 = "effect (ReadFile (fns ! i) d) id ?w1"
      show ?thesis
      proof (cases "read_image_dims a d")
        case (Inl e')
        with assms i Inr have "w' = ?w2 \<and> e = e'"
          by (auto simp: convert_image_def and_then_Inl stdout_write_def perform_def
              attempt_def)
        then show ?thesis using Inl by (simp add: trace_effect)
      next
        case dims: (Inr dims)
        with assms i Inr have "w' = ?w2"
          by (auto simp: convert_image_def and_then_Inl stdout_write_def perform_def
              attempt_def raise_def Let_def split: option.splits)
        then show ?thesis using read_image_dims_Inr[OF dims] by (simp add: trace_effect)
      qed
    qed
  qed
qed


lemma image_blocks:
  assumes "list_all2 (\<lambda>i evs. \<exists>st dd ex.
             evs = [Stdout st, ReadFile (fns ! i) dd, WriteRecord out ex] \<and>
             three_channels a dd \<and> image_encoded ex = dd) ixs evss"
  shows "opened (concat evss) = []"
    and "map fst (written (concat evss)) = replicate (length ixs) out"
    and "map fst (files_read (concat evss)) = map ((!) fns) ixs"
    and "map (\<lambda>pe. image_encoded (snd pe)) (written (concat evss)) =
           map snd (files_read (concat evss))"
    and "list_all (\<lambda>pd. three_channels a (snd pd)) (files_read (concat evss))"
  using assms
  by (induction ixs evss rule: list_all2_induct)
     (auto simp: written_append files_read_append opened_append)

lemma convert_shard_Inr:
  assumes "convert_shard a split fns c2i d ts nps s w = (Inr u, w')"
  shows "\<exists>evs. trace w' = trace w @ evs \<and>
           opened evs = [get_dataset_filename d ts split s] \<and>
           map fst (written evs) =
             replicate (length (shard_indices nps (length fns) s))
               (get_dataset_filename d ts split s) \<and>
           map fst (files_read evs) = map ((!) fns) (shard_indices nps (length fns) s) \<and>
           map (\<lambda>pe. image_encoded (snd pe)) (written evs) = map snd (files_read evs) \<and>
           list_all (\<lambda>pd. three_channels a (snd pd)) (files_read evs)"
proof -
  let ?out = "get_dataset_filename d ts split s"
  let ?ixs = "shard_indices nps (length fns) s"
  let ?w1 = "effect (OpenWriter ?out) (writer_open a ?out) w"
  let ?P = "\<lambda>i evs. \<exists>st dd ex.
             evs = [Stdout st, ReadFile (fns ! i) dd, WriteRecord ?out ex] \<and>
             three_channels a dd \<and> image_encoded ex = dd"
  obtain r w2 where run: "for_each ?ixs (convert_image a fns c2i ?out s) ?w1 = (r, w2)"
    by (cases "for_each ?ixs (convert_image a fns c2i ?out s) ?w1")
  with assms have r: "r = Inr u" and w': "w' = effect (CloseWriter ?out) (writer_close a ?out) w2"
    by (auto simp: convert_shard_def Let_def and_then_Inr perform_def closing_def)
  have "\<exists>evss. trace w2 = trace ?w1 @ concat evss \<and> list_all2 ?P ?ixs evss"
  proof (rule for_each_Inr[OF run[unfolded r]])
    fix x w1 w2 assume "convert_image a fns c2i ?out s x w1 = (Inr (), w2)"
    from convert_image_Inr[OF this]
    show "\<exists>evs. trace w2 = trace w1 @ evs \<and> ?P x evs" by blast
  qed
  then obtain evss where t: "trace w2 = trace ?w1 @ concat evss" and b: "list_all2 ?P ?ixs evss"
    by blast
  let ?evs = "[OpenWriter ?out] @ concat evss @ [CloseWriter ?out]"
  have "trace w' = trace w @ ?evs" using t w' by (simp add: trace_effect)
  moreover have "opened ?evs = [?out]"
    using image_blocks(1)[OF b] by (simp add: opened_append)
  moreover have "map fst (written ?evs) = replicate (length ?ixs) ?out"
    using image_blocks(2)[OF b] by (simp add: written_append)
  moreover have "map fst (files_read ?evs) = map ((!) fns) ?ixs"
    using image_blocks(3)[OF b] by (simp add: files_read_append)
  moreover have "map (\<lambda>pe. image_encoded (snd pe)) (written ?evs) = map snd (files_read ?evs)"
    using image_blocks(4)[OF b] by (simp add: written_append files_read_append)
  moreover have "list_all (\<lambda>pd. three_channels a (snd pd)) (files_read ?evs)"
    using image_blocks(5)[OF b] by (simp add: files_read_append)
  ultimately show ?thesis by blast
qed

lemma num_per_shard_of_eq: "num_per_shard_of n = (n + 4) div 5"
proof -
  have "\<lceil>real n / 5\<rceil> = \<lceil>real_of_int (int n) / real_of_int 5\<rceil>" by simp
  also have "\<dots> = - ((- int n) div 5)" by (simp only: ceiling_divide_eq_div)
  finally show ?thesis unfolding num_per_shard_of_def NUM_SHARDS_def by simp
qed

lemma num_per_shard_covers: "n \<le> NUM_SHARDS * num_per_shard_of n"
  unfolding num_per_shard_of_eq NUM_SHARDS_def by arith

lemma shard_indices_concat:
  "concat (map (shard_indices nps n) [0..<k]) = [0..<min (k * nps) n]"
proof (induction k)
  case 0
  then show ?case by simp
next
  case (Suc k)
  have "[0..<min (k * nps) n] @ [k * nps..<min (Suc k * nps) n] = [0..<min (Suc k * nps) n]"
  proof (cases "k * nps \<le> n")
    case True
    then have "min (k * nps) n = k * nps" by simp
    moreover have "k * nps \<le> min (Suc k * nps) n" using True by simp
    ultimately show ?thesis
      by (metis le0 upt_add_eq_append le_Suc_ex)
  next
    case False
    then have "min (k * nps) n = n" "min (Suc k * nps) n = n" by simp_all
    moreover have "[k * nps..<n] = []" using False by simp
    ultimately show ?thesis by simp
  qed
  then show ?case using Suc by (simp add: shard_indices_def)
qed

lemma shard_indices_partition:
  "concat (map (shard_indices (num_per_shard_of n) n) [0..<NUM_SHARDS]) = [0..<n]"
  using num_per_shard_covers[of n] by (simp add: shard_indices_concat min_def)

lemma shard_blocks:
  assumes "list_all2 (\<lambda>s evs.
             opened evs = [f s] \<and>
             map fst (written evs) = replicate (length (ix s)) (f s) \<and>
             map fst (files_read evs) = map ((!) fns) (ix s) \<and>
             map (\<lambda>pe. image_encoded (snd pe)) (written evs) = map snd (files_read evs) \<and>
             list_all (\<lambda>pd. three_channels a (snd pd)) (files_read evs)) ss evss"
  shows "opened (concat evss) = map f ss"
    and "map fst (written (concat evss)) = concat (map (\<lambda>s. replicate (length (ix s)) (f s)) ss)"
    and "map fst (files_read (concat evss)) = map ((!) fns) (concat (map ix ss))"
    and "map (\<lambda>pe. image_encoded (snd pe)) (written (concat evss)) =
           map snd (files_read (concat evss))"
    and "list_all (\<lambda>pd. three_channels a (snd pd)) (files_read (concat evss))"
  using assms
  by (induction ss evss rule: list_all2_induct)
     (auto simp: written_append files_read_append opened_append)

lemma convert_dataset_Inr:
  assumes "convert_dataset a split fns c2i d ts w = (Inr u, w')"
  shows "\<exists>evs. trace w' = trace w @ evs \<and>
           (split = ''train'' \<or> split = ''validation'') \<and>
           opened evs = map (get_dataset_filename d ts split) [0..<NUM_SHARDS] \<and>
           map fst (written evs) =
             concat (map (\<lambda>s. replicate
                 (length (shard_indices (num_per_shard_of (length fns)) (length fns) s))
                 (get_dataset_filename d ts split s)) [0..<NUM_SHARDS]) \<and>
           map fst (files_read evs) = fns \<and>
           map (\<lambda>pe. image_encoded (snd pe)) (written evs) = map snd (files_read evs) \<and>
           list_all (\<lambda>pd. three_channels a (snd pd)) (files_read evs)"
proof -
  let ?nps = "num_per_shard_of (length fns)"
  let ?f = "get_dataset_filename d ts split"
  let ?ix = "shard_indices ?nps (length fns)"
  let ?P = "\<lambda>s evs.
             opened evs = [?f s] \<and>
             map fst (written evs) = replicate (length (?ix s)) (?f s) \<and>
             map fst (files_read evs) = map ((!) fns) (?ix s) \<and>
             map (\<lambda>pe. image_encoded (snd pe)) (written evs) = map snd (files_read evs) \<and>
             list_all (\<lambda>pd. three_channels a (snd pd)) (files_read evs)"
  from assms have sp: "split = ''train'' \<or> split = ''validation''"
    by (auto simp: convert_dataset_def raise_def split: if_splits)
  with assms obtain w1 where
    run: "for_each [0..<NUM_SHARDS] (convert_shard a split fns c2i d ts ?nps) w = (Inr (), w1)"
    and w': "w' = effect (Stdout [CHR 0x0A]) id w1"
    by (auto simp: convert_dataset_def Let_def and_then_Inr stdout_write_def perform_def)
  have "\<exists>evss. trace w1 = trace w @ concat evss \<and> list_all2 ?P [0..<NUM_SHARDS] evss"
  proof (rule for_each_Inr[OF run])
    fix x w1 w2 assume "convert_shard a split fns c2i d ts ?nps x w1 = (Inr (), w2)"
    from convert_shard_Inr[OF this]
    show "\<exists>evs. trace w2 = trace w1 @ evs \<and> ?P x evs" by blast
  qed
  then obtain evss where t: "trace w1 = trace w @ concat evss"
    and b: "list_all2 ?P [0..<NUM_SHARDS] evss"
    by blast
  let ?evs = "concat evss @ [Stdout [CHR 0x0A]]"
  have "trace w' = trace w @ ?evs" using t w' by (simp add: trace_effect)
  moreover have "opened ?evs = map ?f [0..<NUM_SHARDS]"
    using shard_blocks(1)[OF b] by (simp add: opened_append)
  moreover have "map fst (written ?evs) =
      concat (map (\<lambda>s. replicate (length (?ix s)) (?f s)) [0..<NUM_SHARDS])"
    using shard_blocks(2)[OF b] by (simp add: written_append)
  moreover have "map fst (files_read ?evs) = fns"
    using shard_blocks(3)[OF b]
    by (simp add: files_read_append shard_indices_partition map_nth)
  moreover have "map (\<lambda>pe. image_encoded (snd pe)) (written ?evs) = map snd (files_read ?evs)"
    using shard_blocks(4)[OF b] by (simp add: written_append files_read_append)
  moreover have "list_all (\<lambda>pd. three_channels a (snd pd)) (files_read ?evs)"
    using shard_blocks(5)[OF b] by (simp add: files_read_append)
  ultimately show ?thesis using sp by blast
qed

lemma new_events_append: "trace w' = trace w @ evs \<Longrightarrow> new_events w w' = evs"
  by (simp add: new_events_def)

text \<open>
  Claim C2. In a run of \<^verbatim>\<open>_convert_dataset\<close> that returns, for a list of \<open>n\<close> filenames: the
  index ranges \<open>[shard_id * ceil(n/5), min((shard_id+1) * ceil(n/5), n))\<close> of the five
  shards, one after the other, are the indices \<open>0, \<dots>, n-1\<close>; each shard file receives one
  record for each index of its range; so \<open>n\<close> records are written in all, the files read
  are the filenames in order, and the \<open>k\<close>-th record holds the bytes of the \<open>k\<close>-th file.
\<close>

theorem shards_partition_the_filenames:
  assumes "fst (convert_dataset a split_name filenames class_names_to_ids dataset_dir
                  tfrecords_subdir w) = Inr ()"
  shows "let n = length filenames;
             num_per_shard = num_per_shard_of n;
             evs = new_events w (snd (convert_dataset a split_name filenames class_names_to_ids
                                        dataset_dir tfrecords_subdir w))
         in concat (map (shard_indices num_per_shard n) [0..<NUM_SHARDS]) = [0..<n] \<and>
            map fst (written evs) =
              concat (map (\<lambda>shard_id.
                  replicate (length (shard_indices num_per_shard n shard_id))
                    (get_dataset_filename dataset_dir tfrecords_subdir split_name shard_id))
                [0..<NUM_SHARDS]) \<and>
            length (written evs) = n \<and>
            map fst (files_read evs) = filenames \<and>
            map (\<lambda>pe. image_encoded (snd pe)) (written evs) = map snd (files_read evs)"
proof -
  let ?run = "convert_dataset a split_name filenames class_names_to_ids dataset_dir
                tfrecords_subdir w"
  from assms have "?run = (Inr (), snd ?run)" by (cases ?run) simp
  from convert_dataset_Inr[OF this] obtain evs
    where t: "trace (snd ?run) = trace w @ evs"
      and wr: "map fst (written evs) =
             concat (map (\<lambda>s. replicate
                 (length (shard_indices (num_per_shard_of (length filenames)) (length filenames) s))
                 (get_dataset_filename dataset_dir tfrecords_subdir split_name s)) [0..<NUM_SHARDS])"
      and rd: "map fst (files_read evs) = filenames"
      and im: "map (\<lambda>pe. image_encoded (snd pe)) (written evs) = map snd (files_read evs)"
    by blast
  have ev: "new_events w (snd ?run) = evs" by (rule new_events_append[OF t])
  have "length (written evs) = length (map (\<lambda>pe. image_encoded (snd pe)) (written evs))"
    by simp
  also have "\<dots> = length (map fst (files_read evs))" by (simp add: im)
  also have "\<dots> = length filenames" by (simp add: rd)
  finally have len: "length (written evs) = length filenames" .
  show ?thesis
    unfolding Let_def ev using wr rd im len shard_indices_partition by blast
qed

theorem shards_partition_the_filenames_witness:
  "fst (convert_dataset mem_api ''train'' demo_filenames demo_ids ''d'' ''tfrecords''
          (mem_world demo_fs)) = Inr () \<and>
   map length (map (shard_indices (num_per_shard_of 7) 7) [0..<NUM_SHARDS]) = [2, 2, 2, 1, 0] \<and>
   length (written (new_events (mem_world demo_fs)
      (snd (convert_dataset mem_api ''train'' demo_filenames demo_ids ''d'' ''tfrecords''
          (mem_world demo_fs))))) = 7"
proof -
  have h: "fst (convert_dataset mem_api ''train'' demo_filenames demo_ids ''d'' ''tfrecords''
          (mem_world demo_fs)) = Inr ()"
    by code_simp
  have n: "length demo_filenames = 7" by (simp add: demo_filenames_def)
  have s: "map length (map (shard_indices (num_per_shard_of 7) 7) [0..<NUM_SHARDS]) = [2, 2, 2, 1, 0]"
    by code_simp
  show ?thesis
    using shards_partition_the_filenames[OF h] h s by (simp add: Let_def n)
qed

section \<open>The shard files\<close>

lemma fmt_05d_shards:
  "fmt_05d 0 = ''00000''" "fmt_05d 1 = ''00001''" "fmt_05d 2 = ''00002''"
  "fmt_05d 3 = ''00003''" "fmt_05d 4 = ''00004''" "fmt_05d NUM_SHARDS = ''00005''"
  "fmt_05d (Suc 0) = ''00001''"
  by code_simp+

lemma upt_NUM_SHARDS: "[0..<NUM_SHARDS] = [0, 1, 2, 3, 4]"
  by code_simp

lemma get_dataset_filename_join:
  "get_dataset_filename dataset_dir sub split_name shard_id =
     os_path_join (os_path_join dataset_dir [sub])
       [''tumblr_'' @ split_name @ ''_'' @ fmt_05d shard_id @ ''-of-'' @ fmt_05d NUM_SHARDS @
        ''.tfrecord'']"
  by (simp add: get_dataset_filename_def os_path_join_def)

lemma join_step_inject:
  assumes "join_step p (CHR ''t'' # xs) = join_step p (CHR ''t'' # ys)"
  shows "xs = ys"
  using assms by (simp add: join_step_def split: if_splits)

text \<open>
  Claim C7. A run of \<^verbatim>\<open>_convert_dataset\<close> that returns has opened exactly five shard
  files, whatever the number of filenames: five different paths, in the order of the
  shard indices, each the join of the output directory (the dataset directory joined
  with the tfrecords subdirectory) and the name
  \<open>tumblr_<split>_0000<shard>-of-00005.tfrecord\<close>, where the split is \<open>train\<close> or
  \<open>validation\<close>.
\<close>

theorem five_shard_files_per_split:
  assumes "fst (convert_dataset a split_name filenames class_names_to_ids dataset_dir
                  tfrecords_subdir w) = Inr ()"
  shows "(split_name = ''train'' \<or> split_name = ''validation'') \<and>
         opened (new_events w (snd (convert_dataset a split_name filenames class_names_to_ids
                                      dataset_dir tfrecords_subdir w))) =
           map (\<lambda>name. os_path_join (os_path_join dataset_dir [tfrecords_subdir]) [name])
             [''tumblr_'' @ split_name @ ''_00000-of-00005.tfrecord'',
              ''tumblr_'' @ split_name @ ''_00001-of-00005.tfrecord'',
              ''tumblr_'' @ split_name @ ''_00002-of-00005.tfrecord'',
              ''tumblr_'' @ split_name @ ''_00003-of-00005.tfrecord'',
              ''tumblr_'' @ split_name @ ''_00004-of-00005.tfrecord''] \<and>
         distinct (opened (new_events w (snd (convert_dataset a split_name filenames
                                      class_names_to_ids dataset_dir tfrecords_subdir w))))"
proof -
  let ?run = "convert_dataset a split_name filenames class_names_to_ids dataset_dir
                tfrecords_subdir w"
  let ?dir = "os_path_join dataset_dir [tfrecords_subdir]"
  from assms have "?run = (Inr (), snd ?run)" by (cases ?run) simp
  from convert_dataset_Inr[OF this] obtain evs
    where t: "trace (snd ?run) = trace w @ evs"
      and sp: "split_name = ''train'' \<or> split_name = ''validation''"
      and op: "opened evs =
                 map (get_dataset_filename dataset_dir tfrecords_subdir split_name) [0..<NUM_SHARDS]"
    by blast
  have ev: "new_events w (snd ?run) = evs" by (rule new_events_append[OF t])
  have names: "opened evs =
           map (\<lambda>name. os_path_join ?dir [name])
             [''tumblr_'' @ split_name @ ''_00000-of-00005.tfrecord'',
              ''tumblr_'' @ split_name @ ''_00001-of-00005.tfrecord'',
              ''tumblr_'' @ split_name @ ''_00002-of-00005.tfrecord'',
              ''tumblr_'' @ split_name @ ''_00003-of-00005.tfrecord'',
              ''tumblr_'' @ split_name @ ''_00004-of-00005.tfrecord'']"
    unfolding op upt_NUM_SHARDS
    by (simp add: get_dataset_filename_join fmt_05d_shards)
  have "distinct (opened evs)"
    unfolding names by (auto simp: os_path_join_def dest!: join_step_inject)
  with sp names show ?thesis unfolding ev by simp
qed

theorem five_shard_files_per_split_witness:
  "fst (convert_dataset mem_api ''validation'' [] demo_ids ''d'' ''tfrecords''
          (mem_world demo_fs)) = Inr () \<and>
   opened (new_events (mem_world demo_fs)
      (snd (convert_dataset mem_api ''validation'' [] demo_ids ''d'' ''tfrecords''
          (mem_world demo_fs)))) =
     [''d/tfrecords/tumblr_validation_00000-of-00005.tfrecord'',
      ''d/tfrecords/tumblr_validation_00001-of-00005.tfrecord'',
      ''d/tfrecords/tumblr_validation_00002-of-00005.tfrecord'',
      ''d/tfrecords/tumblr_validation_00003-of-00005.tfrecord'',
      ''d/tfrecords/tumblr_validation_00004-of-00005.tfrecord'']"
proof -
  have h: "fst (convert_dataset mem_api ''validation'' [] demo_ids ''d'' ''tfrecords''
          (mem_world demo_fs)) = Inr ()"
    by code_simp
  show ?thesis
    using five_shard_files_per_split[OF h] h
    by (simp add: os_path_join_def join_step_def)
qed

section \<open>A run that raises\<close>

lemma convert_shard_Inl:
  assumes "convert_shard a split fns c2i d ts nps s w = (Inl e, w')"
  shows "\<exists>pre fin. trace w' = trace w @ pre @ fin @ [CloseWriter (get_dataset_filename d ts split s)] \<and>
           list_all (\<lambda>pd. three_channels a (snd pd)) (files_read pre) \<and>
           ((\<exists>st. fin = [Stdout st]) \<or>
            (\<exists>st p dd. fin = [Stdout st, ReadFile p dd] \<and>
               (read_image_dims a dd = Inl e \<or> three_channels a dd)))"
proof -
  let ?out = "get_dataset_filename d ts split s"
  let ?ixs = "shard_indices nps (length fns) s"
  let ?w1 = "effect (OpenWriter ?out) (writer_open a ?out) w"
  let ?P = "\<lambda>i evs. \<exists>st dd ex.
             evs = [Stdout st, ReadFile (fns ! i) dd, WriteRecord ?out ex] \<and>
             three_channels a dd \<and> image_encoded ex = dd"
  let ?Q = "\<lambda>i fin. (\<exists>st. fin = [Stdout st]) \<or>
            (\<exists>st p dd. fin = [Stdout st, ReadFile p dd] \<and>
               (read_image_dims a dd = Inl e \<or> three_channels a dd))"
  obtain r w2 where run: "for_each ?ixs (convert_image a fns c2i ?out s) ?w1 = (r, w2)"
    by (cases "for_each ?ixs (convert_image a fns c2i ?out s) ?w1")
  with assms have r: "r = Inl e" and w': "w' = effect (CloseWriter ?out) (writer_close a ?out) w2"
    by (auto simp: convert_shard_def Let_def and_then_Inl perform_def closing_def)
  have "\<exists>ys x zs evss fin. ?ixs = ys @ x # zs \<and> list_all2 ?P ys evss \<and> ?Q x fin \<and>
           trace w2 = trace ?w1 @ concat evss @ fin"
  proof (rule for_each_Inl[OF run[unfolded r]])
    fix x w1 w2 assume "convert_image a fns c2i ?out s x w1 = (Inr (), w2)"
    from convert_image_Inr[OF this]
    show "\<exists>evs. trace w2 = trace w1 @ evs \<and> ?P x evs" by blast
  next
    fix x w1 w2 assume "convert_image a fns c2i ?out s x w1 = (Inl e, w2)"
    from convert_image_Inl[OF this]
    show "\<exists>evs. trace w2 = trace w1 @ evs \<and> ?Q x evs" by blast
  qed
  then obtain ys x evss fin where b: "list_all2 ?P ys evss" and q: "?Q x fin"
    and t: "trace w2 = trace ?w1 @ concat evss @ fin"
    by blast
  let ?pre = "[OpenWriter ?out] @ concat evss"
  have "trace w' = trace w @ ?pre @ fin @ [CloseWriter ?out]"
    using t w' by (simp add: trace_effect)
  moreover have "list_all (\<lambda>pd. three_channels a (snd pd)) (files_read ?pre)"
    using image_blocks(5)[OF b] by (simp add: files_read_append)
  ultimately show ?thesis using q by blast
qed

lemma convert_dataset_Inl:
  assumes "convert_dataset a split fns c2i d ts w = (Inl e, w')"
  shows "trace w' = trace w \<or>
         (\<exists>pre fin q. trace w' = trace w @ pre @ fin @ [CloseWriter q] \<and>
           list_all (\<lambda>pd. three_channels a (snd pd)) (files_read pre) \<and>
           ((\<exists>st. fin = [Stdout st]) \<or>
            (\<exists>st p dd. fin = [Stdout st, ReadFile p dd] \<and>
               (read_image_dims a dd = Inl e \<or> three_channels a dd))))"
proof (cases "split = ''train'' \<or> split = ''validation''")
  case False
  with assms have "w' = w" by (auto simp: convert_dataset_def raise_def)
  then show ?thesis by simp
next
  case True
  let ?nps = "num_per_shard_of (length fns)"
  let ?f = "get_dataset_filename d ts split"
  let ?ix = "shard_indices ?nps (length fns)"
  let ?P = "\<lambda>s evs.
             opened evs = [?f s] \<and>
             map fst (written evs) = replicate (length (?ix s)) (?f s) \<and>
             map fst (files_read evs) = map ((!) fns) (?ix s) \<and>
             map (\<lambda>pe. image_encoded (snd pe)) (written evs) = map snd (files_read evs) \<and>
             list_all (\<lambda>pd. three_channels a (snd pd)) (files_read evs)"
  let ?Q = "\<lambda>s evs. \<exists>pre fin. evs = pre @ fin @ [CloseWriter (?f s)] \<and>
           list_all (\<lambda>pd. three_channels a (snd pd)) (files_read pre) \<and>
           ((\<exists>st. fin = [Stdout st]) \<or>
            (\<exists>st p dd. fin = [Stdout st, ReadFile p dd] \<and>
               (read_image_dims a dd = Inl e \<or> three_channels a dd)))"
  from True assms have
    run: "for_each [0..<NUM_SHARDS] (convert_shard a split fns c2i d ts ?nps) w = (Inl e, w')"
    by (auto simp: convert_dataset_def Let_def and_then_Inl stdout_write_def perform_def)
  have "\<exists>ys x zs evss evs. [0..<NUM_SHARDS] = ys @ x # zs \<and> list_all2 ?P ys evss \<and> ?Q x evs \<and>
           trace w' = trace w @ concat evss @ evs"
  proof (rule for_each_Inl[OF run])
    fix x w1 w2 assume "convert_shard a split fns c2i d ts ?nps x w1 = (Inr (), w2)"
    from convert_shard_Inr[OF this]
    show "\<exists>evs. trace w2 = trace w1 @ evs \<and> ?P x evs" by blast
  next
    fix x w1 w2 assume "convert_shard a split fns c2i d ts ?nps x w1 = (Inl e, w2)"
    from convert_shard_Inl[OF this]
    show "\<exists>evs. trace w2 = trace w1 @ evs \<and> ?Q x evs" by blast
  qed
  then obtain ys x evss pre fin where b: "list_all2 ?P ys evss"
    and t: "trace w' = trace w @ concat evss @ pre @ fin @ [CloseWriter (?f x)]"
    and ok: "list_all (\<lambda>pd. three_channels a (snd pd)) (files_read pre)"
    and fin: "(\<exists>st. fin = [Stdout st]) \<or>
            (\<exists>st p dd. fin = [Stdout st, ReadFile p dd] \<and>
               (read_image_dims a dd = Inl e \<or> three_channels a dd))"
    by blast
  have "trace w' = trace w @ (concat evss @ pre) @ fin @ [CloseWriter (?f x)]"
    using t by simp
  moreover have "list_all (\<lambda>pd. three_channels a (snd pd)) (files_read (concat evss @ pre))"
    using shard_blocks(5)[OF b] ok by (simp add: files_read_append)
  ultimately show ?thesis using fin by blast
qed




section \<open>More validation images than images\<close>






section \<open>The scan\<close>

lemma list_photos_Inr:
  assumes "list_photos a fs directories = Inr photo_filenames"
  shows "photo_filenames =
           concat (map (\<lambda>directory.
               map (\<lambda>filename. os_path_join directory [filename])
                 (filter (\<lambda>filename. filename \<noteq> ''.DS_Store'') (directory_entries a fs directory)))
             directories)"
  using assms
proof (induction directories arbitrary: photo_filenames)
  case Nil
  then show ?case by simp
next
  case (Cons d ds)
  from Cons.prems obtain entries rest where
    e: "os_listdir a fs d = Inr entries" and r: "list_photos a fs ds = Inr rest"
    and p: "photo_filenames =
          map (\<lambda>filename. os_path_join d [filename])
            (filter (\<lambda>filename. filename \<noteq> ''.DS_Store'') entries) @ rest"
    by (auto split: sum.splits)
  from Cons.IH[OF r] e p show ?case by (simp add: directory_entries_def)
qed

lemma basename_join:
  assumes "CHR ''/'' \<notin> set f"
  shows "os_path_basename (os_path_join directory [f]) = f"
proof -
  have tw: "takeWhile (\<lambda>c. c \<noteq> CHR ''/'') (rev f @ ys) =
              rev f @ takeWhile (\<lambda>c. c \<noteq> CHR ''/'') ys" for ys
    by (rule takeWhile_append2) (use assms in auto)
  have hd: "\<not> (f \<noteq> [] \<and> hd f = CHR ''/'')" using assms by (cases f) auto
  show ?thesis
  proof (cases "directory = [] \<or> last directory = CHR ''/''")
    case True
    then have "takeWhile (\<lambda>c. c \<noteq> CHR ''/'') (rev directory) = []"
      by (cases directory rule: rev_cases) auto
    moreover have "os_path_join directory [f] = directory @ f"
      using True hd by (auto simp: os_path_join_def join_step_def)
    ultimately show ?thesis by (simp add: os_path_basename_def tw)
  next
    case False
    then have "os_path_join directory [f] = directory @ ''/'' @ f"
      using hd by (auto simp: os_path_join_def join_step_def)
    then show ?thesis by (simp add: os_path_basename_def tw)
  qed
qed

text \<open>
  Claim C8. When the scan returns, the filename list is, class directory after class
  directory and entry after entry, the join of the directory with each of its entries
  other than \<^verbatim>\<open>.DS_Store\<close>: every other entry is included, once. Where the entries are
  names (no separator in them, as a directory listing gives them), no returned path has
  the base name \<^verbatim>\<open>.DS_Store\<close>; the conversion reads the files of this list only, so that
  file is never decoded or written.
\<close>

theorem scanner_leaves_out_ds_store:
  assumes "get_filenames_and_classes a dataset_dir photos_subdir fs =
             Inr (photo_filenames, class_names)"
    and "list_classes a dataset_dir photos_subdir fs = Inr (directories, names)"
    and "list_all (\<lambda>directory.
           list_all (\<lambda>filename. CHR ''/'' \<notin> set filename) (directory_entries a fs directory))
           directories"
  shows "photo_filenames =
           concat (map (\<lambda>directory.
               map (\<lambda>filename. os_path_join directory [filename])
                 (filter (\<lambda>filename. filename \<noteq> ''.DS_Store'') (directory_entries a fs directory)))
             directories) \<and>
         list_all (\<lambda>p. os_path_basename p \<noteq> ''.DS_Store'') photo_filenames"
proof -
  from assms(1,2) have "list_photos a fs directories = Inr photo_filenames"
    by (auto simp: get_filenames_and_classes_def Let_def split: sum.splits)
  then have eq: "photo_filenames =
           concat (map (\<lambda>directory.
               map (\<lambda>filename. os_path_join directory [filename])
                 (filter (\<lambda>filename. filename \<noteq> ''.DS_Store'') (directory_entries a fs directory)))
             directories)"
    by (rule list_photos_Inr)
  have "os_path_basename p \<noteq> ''.DS_Store''" if "p \<in> set photo_filenames" for p
  proof -
    from that eq obtain directory f where d: "directory \<in> set directories"
      and f: "f \<in> set (directory_entries a fs directory)" "f \<noteq> ''.DS_Store''"
      and p: "p = os_path_join directory [f]"
      by auto
    from assms(3) d f(1) have "CHR ''/'' \<notin> set f" by (auto simp: list_all_iff)
    then have "os_path_basename p = f" unfolding p by (rule basename_join)
    with f(2) show ?thesis by simp
  qed
  then have "list_all (\<lambda>p. os_path_basename p \<noteq> ''.DS_Store'') photo_filenames"
    by (simp add: list_all_iff)
  with eq show ?thesis by simp
qed

theorem scanner_leaves_out_ds_store_witness:
  "get_filenames_and_classes mem_api ''d'' ''photos'' demo_fs =
     Inr (demo_filenames, [''happy'', ''sad'']) \<and>
   ''.DS_Store'' \<in> set (directory_entries mem_api demo_fs ''d/photos/happy'') \<and>
   list_all (\<lambda>p. os_path_basename p \<noteq> ''.DS_Store'') demo_filenames"
proof -
  have h1: "get_filenames_and_classes mem_api ''d'' ''photos'' demo_fs =
     Inr (demo_filenames, [''happy'', ''sad''])"
    by code_simp
  have h2: "list_classes mem_api ''d'' ''photos'' demo_fs =
     Inr ([''d/photos/sad'', ''d/photos/happy''], [''sad'', ''happy''])"
    by code_simp
  have h3: "list_all (\<lambda>directory.
           list_all (\<lambda>filename. CHR ''/'' \<notin> set filename)
             (directory_entries mem_api demo_fs directory))
           [''d/photos/sad'', ''d/photos/happy'']"
    by code_simp
  have h4: "''.DS_Store'' \<in> set (directory_entries mem_api demo_fs ''d/photos/happy'')"
    by code_simp
  show ?thesis
    using scanner_leaves_out_ds_store[OF h1 h2 h3] h1 h4 by blast
qed

section \<open>Class ids and the label mapping\<close>






lemma make_tfrecords_dir_returns: "fst (make_tfrecords_dir a d ts w) = Inr ()"
  by (simp add: make_tfrecords_dir_def Let_def and_then_def query_def perform_def ret_def)

lemma convert_images_unfold:
  assumes "\<not> dataset_exists a d ps (fsys (snd (make_tfrecords_dir a d ts w)))"
    and "get_filenames_and_classes a d ps (fsys (snd (make_tfrecords_dir a d ts w))) =
           Inr (photo_filenames, class_names)"
  shows "convert_images a d k ps ts w =
           and_then
             (convert_dataset a ''train''
                (slice_from (fst (random_shuffle a (random_seed a RANDOM_SEED) photo_filenames)) k)
                (dict (zip class_names [0..<length class_names])) d ts)
             (\<lambda>_. and_then
                (convert_dataset a ''validation''
                   (slice_to (fst (random_shuffle a (random_seed a RANDOM_SEED) photo_filenames)) k)
                   (dict (zip class_names [0..<length class_names])) d ts)
                (\<lambda>_. and_then
                   (perform
                      (WriteLabelFile (dict (zip [0..<length class_names] class_names)) d ps)
                      (write_label_file a (dict (zip [0..<length class_names] class_names)) d ps))
                   (\<lambda>_. print ([CHR 0x0A] @ ''Finished converting the dataset!''))))
             (snd (split_step a k photo_filenames (snd (make_tfrecords_dir a d ts w))))"
proof -
  obtain w1 where m: "make_tfrecords_dir a d ts w = (Inr (), w1)"
    using make_tfrecords_dir_returns[of a d ts w] by (cases "make_tfrecords_dir a d ts w") simp
  with assms show ?thesis
    by (simp add: convert_images_def and_then_def query_def attempt_def split_step_eq Let_def)
qed




section \<open>The existence check\<close>

text \<open>
  Claim C1. The claim is that a dataset directory whose ten shard files exist in the
  output location is left alone: no conversion, no shard or label write. The script
  calls \<^verbatim>\<open>_dataset_exists\<close> with the photos subdirectory, while \<^verbatim>\<open>_convert_dataset\<close> writes the
  shards under the tfrecords subdirectory. On a tree whose ten shard files are all in
  \<^verbatim>\<open>d/tfrecords\<close> (so that the same check, asked about the tfrecords subdirectory, holds),
  the run with the default subdirectories opens all ten shard files again and writes a
  record.
\<close>

theorem existing_shards_are_converted_again:
  "dataset_exists mem_api ''d'' ''tfrecords'' converted_fs \<and>
   fst (convert_images mem_api ''d'' 0 ''photos'' ''tfrecords'' (mem_world converted_fs)) = Inr () \<and>
   opened (trace (snd (convert_images mem_api ''d'' 0 ''photos'' ''tfrecords''
                         (mem_world converted_fs)))) =
     map (\<lambda>name. ''d/tfrecords/'' @ name) shard_names \<and>
   length (written (trace (snd (convert_images mem_api ''d'' 0 ''photos'' ''tfrecords''
                                 (mem_world converted_fs))))) = 1"
  by code_simp

lemma and_then_appends:
  assumes "\<And>w. \<exists>evs. trace (snd (m w)) = trace w @ evs"
    and "\<And>x w. \<exists>evs. trace (snd (k x w)) = trace w @ evs"
  shows "\<exists>evs. trace (snd (and_then m k w)) = trace w @ evs"
proof (cases "m w")
  case (Pair r w1)
  from assms(1)[of w] Pair obtain evs1 where e1: "trace w1 = trace w @ evs1" by auto
  show ?thesis
  proof (cases r)
    case (Inl e)
    with Pair e1 show ?thesis by (simp add: and_then_def)
  next
    case (Inr x)
    from assms(2)[of x w1] obtain evs2 where "trace (snd (k x w1)) = trace w1 @ evs2" by auto
    with Pair Inr e1 show ?thesis by (simp add: and_then_def)
  qed
qed

lemma convert_dataset_appends:
  "\<exists>evs. trace (snd (convert_dataset a split fns c2i d ts w)) = trace w @ evs"
proof (cases "convert_dataset a split fns c2i d ts w")
  case (Pair r w')
  show ?thesis
  proof (cases r)
    case (Inl e)
    from convert_dataset_Inl[OF Pair[unfolded Inl]] Pair show ?thesis by auto
  next
    case (Inr u)
    from convert_dataset_Inr[OF Pair[unfolded Inr]] Pair show ?thesis by auto
  qed
qed

lemma perform_appends: "\<exists>evs. trace (snd (perform ev f w)) = trace w @ evs"
  by (simp add: perform_def trace_effect)

lemma print_appends: "\<exists>evs. trace (snd (print s w)) = trace w @ evs"
  by (simp add: print_def stdout_write_def perform_def trace_effect)

lemma convert_images_after_dir:
  "\<exists>evs. trace (snd (convert_images a d k ps ts w)) =
           trace (snd (make_tfrecords_dir a d ts w)) @ evs"
proof -
  obtain w1 where m: "make_tfrecords_dir a d ts w = (Inr (), w1)"
    using make_tfrecords_dir_returns[of a d ts w] by (cases "make_tfrecords_dir a d ts w") simp
  then have w1: "snd (make_tfrecords_dir a d ts w) = w1" by simp
  have "\<exists>evs. trace (snd (convert_images a d k ps ts w)) = trace w1 @ evs"
  proof (cases "dataset_exists a d ps (fsys w1)")
    case True
    with m show ?thesis
      by (simp add: convert_images_def and_then_def query_def print_def stdout_write_def
          perform_def trace_effect)
  next
    case False
    show ?thesis
    proof (cases "get_filenames_and_classes a d ps (fsys w1)")
      case (Inl e)
      with m False show ?thesis
        by (simp add: convert_images_def and_then_def query_def attempt_def)
    next
      case (Inr scanned)
      obtain fns cns where s: "scanned = (fns, cns)" by (cases scanned)
      have t2: "trace (snd (split_step a k fns w1)) = trace w1"
        by (simp add: split_step_eq)
      show ?thesis
        unfolding convert_images_unfold[of a d ps ts w, unfolded w1, OF False Inr[unfolded s]]
          t2[symmetric]
        by (intro and_then_appends convert_dataset_appends perform_appends print_appends)
    qed
  qed
  then show ?thesis by (simp add: w1)
qed

text \<open>
  Claim C10. When the output directory does not exist, the first event of every run of
  \<^verbatim>\<open>convert_images\<close> is its creation, and the existence check is made on the filesystem
  that has the directory: if the check holds there, the run returns after the message,
  and the world it leaves differs from the one it started in by the new directory (and
  the two events).
\<close>

theorem output_directory_is_made_before_the_check:
  assumes "\<not> gfile_exists a (fsys w) (os_path_join dataset_dir [tfrecords_subdir])"
  shows "(\<exists>evs. new_events w (snd (convert_images a dataset_dir num_valid photos_subdir
                                      tfrecords_subdir w)) =
                  MakeDirs (os_path_join dataset_dir [tfrecords_subdir]) # evs) \<and>
         (dataset_exists a dataset_dir photos_subdir
            (gfile_makedirs a (os_path_join dataset_dir [tfrecords_subdir]) (fsys w)) \<longrightarrow>
          convert_images a dataset_dir num_valid photos_subdir tfrecords_subdir w =
            (Inr (),
             w\<lparr>fsys := gfile_makedirs a (os_path_join dataset_dir [tfrecords_subdir]) (fsys w),
               trace := trace w @
                 [MakeDirs (os_path_join dataset_dir [tfrecords_subdir]),
                  Stdout (''Dataset files already exist. Exiting without re-creating them.'' @
                          [CHR 0x0A])]\<rparr>))"
proof -
  let ?out = "os_path_join dataset_dir [tfrecords_subdir]"
  let ?w1 = "effect (MakeDirs ?out) (gfile_makedirs a ?out) w"
  have m: "make_tfrecords_dir a dataset_dir tfrecords_subdir w = (Inr (), ?w1)"
    using assms
    by (simp add: make_tfrecords_dir_def Let_def and_then_def query_def perform_def)
  from convert_images_after_dir[of a dataset_dir num_valid photos_subdir tfrecords_subdir w]
  obtain evs where
    "trace (snd (convert_images a dataset_dir num_valid photos_subdir tfrecords_subdir w)) =
       trace w @ MakeDirs ?out # evs"
    by (auto simp: m trace_effect)
  then have first: "\<exists>evs. new_events w (snd (convert_images a dataset_dir num_valid
        photos_subdir tfrecords_subdir w)) = MakeDirs ?out # evs"
    by (simp add: new_events_def)
  have second: "convert_images a dataset_dir num_valid photos_subdir tfrecords_subdir w =
            (Inr (),
             w\<lparr>fsys := gfile_makedirs a ?out (fsys w),
               trace := trace w @
                 [MakeDirs ?out,
                  Stdout (''Dataset files already exist. Exiting without re-creating them.'' @
                          [CHR 0x0A])]\<rparr>)"
    if "dataset_exists a dataset_dir photos_subdir (gfile_makedirs a ?out (fsys w))"
    using that m
    by (simp add: convert_images_def and_then_def query_def print_def stdout_write_def
        perform_def effect_def)
  from first second show ?thesis by blast
qed

theorem output_directory_is_made_before_the_check_witness:
  "\<not> gfile_exists mem_api (fsys (mem_world shards_beside_photos_fs))
       (os_path_join ''d'' [''tfrecords'']) \<and>
   fst (convert_images mem_api ''d'' 0 ''photos'' ''tfrecords''
          (mem_world shards_beside_photos_fs)) = Inr () \<and>
   mem_dirs (fsys (snd (convert_images mem_api ''d'' 0 ''photos'' ''tfrecords''
                          (mem_world shards_beside_photos_fs)))) =
     (''d/tfrecords'', []) # mem_dirs shards_beside_photos_fs \<and>
   written (new_events (mem_world shards_beside_photos_fs)
              (snd (convert_images mem_api ''d'' 0 ''photos'' ''tfrecords''
                      (mem_world shards_beside_photos_fs)))) = []"
proof -
  have h: "\<not> gfile_exists mem_api (fsys (mem_world shards_beside_photos_fs))
       (os_path_join ''d'' [''tfrecords''])"
    by code_simp
  have c: "dataset_exists mem_api ''d'' ''photos''
            (gfile_makedirs mem_api (os_path_join ''d'' [''tfrecords''])
               (fsys (mem_world shards_beside_photos_fs)))"
    by code_simp
  have j: "os_path_join ''d'' [''tfrecords''] = ''d/tfrecords''"
    by code_simp
  show ?thesis
    using output_directory_is_made_before_the_check[OF h, of 0 "''photos''"] h c
    by (simp add: j new_events_def mem_world_def) (simp add: mem_api_def)
qed

section \<open>The split inside the run\<close>

text \<open>
  Claim C3. For a count \<open>num_valid\<close> (an integer that is not negative) that does not
  exceed the number of scanned filenames, in a run of \<^verbatim>\<open>convert_images\<close> that goes on to
  convert: the split seeds the generator with the fixed seed and shuffles the scanned
  list; the first \<open>num_valid\<close> shuffled filenames are the validation filenames and all the
  others the training filenames; and the run is the conversion of the training filenames
  under the split name \<open>train\<close>, then of the validation filenames under the split name
  \<open>validation\<close>, then the label file and the closing message.
\<close>

theorem split_takes_first_num_valid:
  assumes "0 \<le> num_valid" and "num_valid \<le> int (length photo_filenames)"
    and "\<not> dataset_exists a dataset_dir photos_subdir
             (fsys (snd (make_tfrecords_dir a dataset_dir tfrecords_subdir w)))"
    and "get_filenames_and_classes a dataset_dir photos_subdir
           (fsys (snd (make_tfrecords_dir a dataset_dir tfrecords_subdir w))) =
           Inr (photo_filenames, class_names)"
  shows "let shuffled = fst (random_shuffle a (random_seed a RANDOM_SEED) photo_filenames);
             validation_filenames = take (nat num_valid) shuffled;
             training_filenames = drop (nat num_valid) shuffled;
             w1 = snd (make_tfrecords_dir a dataset_dir tfrecords_subdir w);
             class_names_to_ids = dict (zip class_names [0..<length class_names]);
             labels_to_class_names = dict (zip [0..<length class_names] class_names)
         in fst (split_step a num_valid photo_filenames w1) =
              Inr (training_filenames, validation_filenames) \<and>
            convert_images a dataset_dir num_valid photos_subdir tfrecords_subdir w =
              and_then
                (convert_dataset a ''train'' training_filenames class_names_to_ids
                   dataset_dir tfrecords_subdir)
                (\<lambda>_. and_then
                   (convert_dataset a ''validation'' validation_filenames class_names_to_ids
                      dataset_dir tfrecords_subdir)
                   (\<lambda>_. and_then
                      (perform (WriteLabelFile labels_to_class_names dataset_dir photos_subdir)
                         (write_label_file a labels_to_class_names dataset_dir photos_subdir))
                      (\<lambda>_. print ([CHR 0x0A] @ ''Finished converting the dataset!''))))
                (snd (split_step a num_valid photo_filenames w1))"
  unfolding Let_def convert_images_unfold[OF assms(3,4)]
  using assms(1) by (simp add: split_step_eq slice_to_nonneg slice_from_nonneg)

theorem split_takes_first_num_valid_witness:
  "(0::int) \<le> 2 \<and> (2::int) \<le> int (length demo_filenames) \<and>
   get_filenames_and_classes mem_api ''d'' ''photos''
     (fsys (snd (make_tfrecords_dir mem_api ''d'' ''tfrecords'' (mem_world demo_fs)))) =
     Inr (demo_filenames, [''happy'', ''sad'']) \<and>
   fst (split_step mem_api 2 demo_filenames
          (snd (make_tfrecords_dir mem_api ''d'' ''tfrecords'' (mem_world demo_fs)))) =
     Inr ([''d/photos/happy/b.jpg'', ''d/photos/happy/a.jpg'', ''d/photos/sad/g.jpg'',
           ''d/photos/sad/f.jpg'', ''d/photos/sad/e.jpg''],
          [''d/photos/happy/d.jpg'', ''d/photos/happy/c.jpg''])"
proof -
  have h1: "(0::int) \<le> 2" by simp
  have h2: "(2::int) \<le> int (length demo_filenames)" by (simp add: demo_filenames_def)
  have h3: "\<not> dataset_exists mem_api ''d'' ''photos''
               (fsys (snd (make_tfrecords_dir mem_api ''d'' ''tfrecords'' (mem_world demo_fs))))"
    by code_simp
  have h4: "get_filenames_and_classes mem_api ''d'' ''photos''
     (fsys (snd (make_tfrecords_dir mem_api ''d'' ''tfrecords'' (mem_world demo_fs)))) =
     Inr (demo_filenames, [''happy'', ''sad''])"
    by code_simp
  have sh: "fst (random_shuffle mem_api (random_seed mem_api RANDOM_SEED) demo_filenames) =
              rev demo_filenames"
    by (simp add: mem_api_def)
  have parts: "drop 2 (rev demo_filenames) =
      [''d/photos/happy/b.jpg'', ''d/photos/happy/a.jpg'', ''d/photos/sad/g.jpg'',
           ''d/photos/sad/f.jpg'', ''d/photos/sad/e.jpg'']"
    "take 2 (rev demo_filenames) = [''d/photos/happy/d.jpg'', ''d/photos/happy/c.jpg'']"
    by (simp_all add: demo_filenames_def)
  from split_takes_first_num_valid[OF h1 h2 h3 h4]
  have "fst (split_step mem_api 2 demo_filenames
          (snd (make_tfrecords_dir mem_api ''d'' ''tfrecords'' (mem_world demo_fs)))) =
     Inr (drop (nat 2) (rev demo_filenames), take (nat 2) (rev demo_filenames))"
    by (simp add: Let_def sh)
  with h1 h2 h4 parts show ?thesis by simp
qed

end
